theory Spec2Isabelle
  imports Complex_Main
begin

section \<open>Remote system statistics: collector and monitor\<close>

text \<open>
  A shallow embedding of \<^verbatim>\<open>stats/remoteStats.go\<close> (the collector) and of the monitor
  that drives it.

  Conventions of the embedding.
  \<^item> A Go \<^verbatim>\<open>float64\<close> is a \<open>real\<close>: arithmetic is exact and there is neither NaN nor
    infinity. The sums and differences of counters are the same in binary64 as long as
    the counters are non-negative integers whose sum is at most \<open>2^53\<close>; the statement
    about the usage percentage assumes so. The percentages \<open>200/9\<close>, \<open>400/9\<close> and \<open>100/3\<close>
    of the examples are what binary64 rounds; every other number that the examples
    compute is representable without rounding.
  \<^item> \<^verbatim>\<open>strconv.ParseFloat\<close> belongs to the Go library, not to this repository. Every
    function that calls it takes it as the parameter \<open>pf\<close>, where \<open>pf tok = None\<close>
    stands for a non-nil error.
  \<^item> A remote file is what \<^verbatim>\<open>bufio.Scanner\<close> delivers from it: the lines, and the value
    of \<^verbatim>\<open>scanner.Err()\<close> after each number of calls to \<^verbatim>\<open>Scan\<close>.
  \<^item> A function returns \<open>Ok v\<close>, \<open>Err e\<close> (a non-nil Go error) or \<open>Panic\<close> (a run-time
    panic, here always an index out of range).
\<close>

subsection \<open>Errors and results\<close>

datatype error =
    IOError string
  | NumError string
  | InvalidMeminfo
  | Wrapped string error

datatype 'a result = Ok 'a | Err error | Panic

text \<open>The remote file as \<^verbatim>\<open>sftpClient.Open\<close> and the scanner present it.\<close>

datatype remote_file =
    OpenFails error
  | Opened "string list" "nat \<Rightarrow> error option"

subsection \<open>Library functions on strings\<close>

text \<open>\<^verbatim>\<open>strings.Fields\<close> on ASCII input: the maximal runs of non-space bytes.\<close>

definition isSpace :: "char \<Rightarrow> bool" where
  "isSpace c = (c = CHR '' '' \<or> c = CHR 0x09 \<or> c = CHR 0x0A \<or> c = CHR 0x0B
                \<or> c = CHR 0x0C \<or> c = CHR 0x0D)"

fun fields_from :: "string \<Rightarrow> string \<Rightarrow> string list" where
  "fields_from cur [] = (if cur = [] then [] else [cur])"
| "fields_from cur (c # cs) =
     (if isSpace c then (if cur = [] then fields_from [] cs else cur # fields_from [] cs)
      else fields_from (cur @ [c]) cs)"

definition Fields :: "string \<Rightarrow> string list" where
  "Fields s = fields_from [] s"

definition HasPrefix :: "string \<Rightarrow> string \<Rightarrow> bool" where
  "HasPrefix s p = (take (length p) s = p)"

text \<open>
  An instance of the parser parameter for the concrete examples: unsigned decimal
  integer literals, on which it agrees with \<^verbatim>\<open>strconv.ParseFloat\<close> (below \<open>2^53\<close>). It
  rejects every token that has a character other than a digit; the general theorems
  never use it.
\<close>

definition digit_val :: "char \<Rightarrow> nat option" where
  "digit_val c = map_of (zip ''0123456789'' [0, 1, 2, 3, 4, 5, 6, 7, 8, 9]) c"

fun digits_from :: "nat \<Rightarrow> string \<Rightarrow> nat option" where
  "digits_from acc [] = Some acc"
| "digits_from acc (c # cs) =
     (case digit_val c of None \<Rightarrow> None | Some d \<Rightarrow> digits_from (10 * acc + d) cs)"

definition parseDecimal :: "string \<Rightarrow> real option" where
  "parseDecimal s =
     (if s = [] then None
      else case digits_from 0 s of None \<Rightarrow> None | Some n \<Rightarrow> Some (real n))"

subsection \<open>Data model\<close>

record CPUStat =
  Core :: string
  UsagePct :: real

record SystemStats =
  TotalMemoryMB :: real
  UsedMemoryMB :: real
  UsedMemoryPercent :: real
  TotalCPUPercentage :: real
  CPUStats :: "CPUStat list"

subsection \<open>getMemoryStats\<close>

text \<open>The scanning loop of \<^verbatim>\<open>getMemoryStats\<close>, with the locals \<^verbatim>\<open>total\<close> and \<^verbatim>\<open>available\<close>
  (both in kibibytes) as \<open>totalKB\<close> and \<open>availableKB\<close>.\<close>

fun meminfo_loop :: "(string \<Rightarrow> real option) \<Rightarrow> string list \<Rightarrow> real \<times> real \<Rightarrow> real \<times> real" where
  "meminfo_loop pf [] (totalKB, availableKB) = (totalKB, availableKB)"
| "meminfo_loop pf (line # rest) (totalKB, availableKB) =
     (let fields = Fields line in
      if length fields < 2 then meminfo_loop pf rest (totalKB, availableKB)
      else
        let key = fields ! 0 in
        case pf (fields ! 1) of
          None \<Rightarrow> meminfo_loop pf rest (totalKB, availableKB)
        | Some val \<Rightarrow>
            if key = ''MemTotal:'' then meminfo_loop pf rest (val, availableKB)
            else if key = ''MemAvailable:'' then meminfo_loop pf rest (totalKB, val)
            else meminfo_loop pf rest (totalKB, availableKB))"

text \<open>\<^verbatim>\<open>getMemoryStats\<close> returns \<open>(totalMB, usedMB)\<close> or an error.\<close>

definition getMemoryStats :: "(string \<Rightarrow> real option) \<Rightarrow> remote_file \<Rightarrow> (real \<times> real) result" where
  "getMemoryStats pf file =
     (case file of
        OpenFails e \<Rightarrow> Err e
      | Opened lines scanErr \<Rightarrow>
          (case meminfo_loop pf lines (0, 0) of (totalKB, availableKB) \<Rightarrow>
             (case scanErr (Suc (length lines)) of
                Some e \<Rightarrow> Err e
              | None \<Rightarrow>
                  if totalKB = 0 then Err InvalidMeminfo
                  else Ok (totalKB / 1024, (totalKB - availableKB) / 1024))))"

subsection \<open>getCPUStats\<close>

text \<open>
  The inner loop of the closure \<^verbatim>\<open>snapshot\<close>: every token after the core id is parsed and
  appended to \<open>values\<close>; the first token that does not parse ends the snapshot.
\<close>

fun parse_values :: "(string \<Rightarrow> real option) \<Rightarrow> string list \<Rightarrow> real list \<Rightarrow> real list result" where
  "parse_values pf [] values = Ok values"
| "parse_values pf (f # fs) values =
     (case pf f of
        None \<Rightarrow> Err (Wrapped ''failed to parse CPU stat'' (NumError f))
      | Some v \<Rightarrow> parse_values pf fs (values @ [v]))"

text \<open>
  The scanning loop of \<^verbatim>\<open>snapshot\<close>. \<open>n\<close> counts the calls to \<^verbatim>\<open>Scan\<close> made so far; the
  loop returns the map together with the number of calls at which it stopped, either at
  the first line without the prefix \<^verbatim>\<open>cpu\<close> or at the end of the input. \<^verbatim>\<open>fields[0]\<close> on an
  empty slice would panic.
\<close>

fun snapshot_loop ::
  "(string \<Rightarrow> real option) \<Rightarrow> string list \<Rightarrow> nat \<Rightarrow> (string \<rightharpoonup> real list)
     \<Rightarrow> ((string \<rightharpoonup> real list) \<times> nat) result" where
  "snapshot_loop pf [] n stats = Ok (stats, Suc n)"
| "snapshot_loop pf (line # rest) n stats =
     (if \<not> HasPrefix line ''cpu'' then Ok (stats, Suc n)
      else
        (case Fields line of
           [] \<Rightarrow> Panic
         | core # toks \<Rightarrow>
             (case parse_values pf toks [] of
                Ok values \<Rightarrow> snapshot_loop pf rest (Suc n) (stats(core \<mapsto> values))
              | Err e \<Rightarrow> Err e
              | Panic \<Rightarrow> Panic)))"

definition snapshot :: "(string \<Rightarrow> real option) \<Rightarrow> remote_file \<Rightarrow> (string \<rightharpoonup> real list) result" where
  "snapshot pf file =
     (case file of
        OpenFails e \<Rightarrow> Err e
      | Opened lines scanErr \<Rightarrow>
          (case snapshot_loop pf lines 0 Map.empty of
             Ok (stats, n) \<Rightarrow> (case scanErr n of Some e \<Rightarrow> Err e | None \<Rightarrow> Ok stats)
           | Err e \<Rightarrow> Err e
           | Panic \<Rightarrow> Panic))"

text \<open>
  The summation loop \<^verbatim>\<open>for i := range values1\<close>: it reads \<^verbatim>\<open>values2[i]\<close> for every index
  of \<open>values1\<close>, which panics when \<open>values2\<close> is the shorter slice.
\<close>

definition sum_step :: "real list \<Rightarrow> real list \<Rightarrow> nat \<Rightarrow> (real \<times> real) result \<Rightarrow> (real \<times> real) result" where
  "sum_step values1 values2 i st =
     (case st of
        Ok (total1, total2) \<Rightarrow>
          if i < length values2 then Ok (total1 + values1 ! i, total2 + values2 ! i)
          else Panic
      | Err e \<Rightarrow> Err e
      | Panic \<Rightarrow> Panic)"

definition sum_loop :: "real list \<Rightarrow> real list \<Rightarrow> (real \<times> real) result" where
  "sum_loop values1 values2 = fold (sum_step values1 values2) [0..<length values1] (Ok (0, 0))"

text \<open>
  The body of the loop over \<open>stat1\<close> for one core that both maps have: \<open>Ok None\<close> is
  \<^verbatim>\<open>continue\<close>, \<open>Ok (Some usage)\<close> the computed percentage.
\<close>

definition core_usage :: "real list \<Rightarrow> real list \<Rightarrow> real option result" where
  "core_usage values1 values2 =
     (case sum_loop values1 values2 of
        Panic \<Rightarrow> Panic
      | Err e \<Rightarrow> Err e
      | Ok (total1, total2) \<Rightarrow>
          if length values1 > 3 then
            (let idle1 = values1 ! 3;
                 idle2 = values2 ! 3;
                 deltaIdle = idle2 - idle1;
                 deltaTotal = total2 - total1
             in if deltaTotal = 0 then Ok None
                else Ok (Some ((1 - deltaIdle / deltaTotal) * 100)))
          else Ok None)"

text \<open>
  \<^verbatim>\<open>for core, values1 := range stat1\<close>. Go leaves the iteration order of a map
  unspecified, so the order in which the run time yields the keys is the parameter
  \<open>order\<close>; \<open>range_ok\<close> says that it lists every key of the map once. The state is
  \<open>(totalUsage, perCore)\<close>.
\<close>

definition range_ok :: "string list \<Rightarrow> (string \<rightharpoonup> real list) \<Rightarrow> bool" where
  "range_ok order stat1 = (distinct order \<and> set order = dom stat1)"

fun range_stat1 ::
  "(string \<rightharpoonup> real list) \<Rightarrow> (string \<rightharpoonup> real list) \<Rightarrow> string list
     \<Rightarrow> real \<times> CPUStat list \<Rightarrow> (real \<times> CPUStat list) result" where
  "range_stat1 stat1 stat2 [] (totalUsage, perCore) = Ok (totalUsage, perCore)"
| "range_stat1 stat1 stat2 (core # rest) (totalUsage, perCore) =
     (case stat1 core of
        None \<Rightarrow> range_stat1 stat1 stat2 rest (totalUsage, perCore)
      | Some values1 \<Rightarrow>
          (case stat2 core of
             None \<Rightarrow> range_stat1 stat1 stat2 rest (totalUsage, perCore)
           | Some values2 \<Rightarrow>
               (case core_usage values1 values2 of
                  Panic \<Rightarrow> Panic
                | Err e \<Rightarrow> Err e
                | Ok None \<Rightarrow> range_stat1 stat1 stat2 rest (totalUsage, perCore)
                | Ok (Some usage) \<Rightarrow>
                    if core = ''cpu'' then range_stat1 stat1 stat2 rest (usage, perCore)
                    else range_stat1 stat1 stat2 rest
                           (totalUsage, perCore @ [\<lparr>Core = core, UsagePct = usage\<rparr>]))))"

text \<open>
  \<^verbatim>\<open>getCPUStats\<close>: two snapshots (the remote file as it reads before and after the
  sleep), then the loop over the first one.
\<close>

definition getCPUStats ::
  "(string \<Rightarrow> real option) \<Rightarrow> remote_file \<Rightarrow> remote_file \<Rightarrow> string list
     \<Rightarrow> (real \<times> CPUStat list) result" where
  "getCPUStats pf file1 file2 order =
     (case snapshot pf file1 of
        Err e \<Rightarrow> Err e
      | Panic \<Rightarrow> Panic
      | Ok stat1 \<Rightarrow>
          (case snapshot pf file2 of
             Err e \<Rightarrow> Err e
           | Panic \<Rightarrow> Panic
           | Ok stat2 \<Rightarrow> range_stat1 stat1 stat2 order (0, [])))"

subsection \<open>GetSystemStats\<close>

text \<open>What one collection cycle sees of the remote host and of the run time.\<close>

record cycle_env =
  meminfo :: remote_file
  stat_first :: remote_file
  stat_second :: remote_file
  range_order :: "string list"

definition GetSystemStats :: "(string \<Rightarrow> real option) \<Rightarrow> cycle_env \<Rightarrow> SystemStats result" where
  "GetSystemStats pf env =
     (case getMemoryStats pf (meminfo env) of
        Err e \<Rightarrow> Err (Wrapped ''failed to get memory stats'' e)
      | Panic \<Rightarrow> Panic
      | Ok (totalMem, usedMem) \<Rightarrow>
          (case getCPUStats pf (stat_first env) (stat_second env) (range_order env) of
             Err e \<Rightarrow> Err (Wrapped ''failed to get CPU stats'' e)
           | Panic \<Rightarrow> Panic
           | Ok (totalCPU, coreStats) \<Rightarrow>
               Ok \<lparr>TotalMemoryMB = totalMem,
                   UsedMemoryMB = usedMem,
                   UsedMemoryPercent = (usedMem / totalMem) * 100,
                   TotalCPUPercentage = totalCPU,
                   CPUStats = coreStats\<rparr>))"

subsection \<open>The collector and its connections\<close>

text \<open>
  An SSH connection and an SFTP client are handles (numbers); a nil pointer is \<open>None\<close>.
  \<^verbatim>\<open>ssh.Dial\<close>, \<^verbatim>\<open>sftp.NewClient\<close> and the two \<^verbatim>\<open>Close\<close> methods of the libraries are
  parameters. A duration is its number of nanoseconds.
\<close>

record remoteStatsCollector =
  sftpClient :: "nat option"
  sshClient :: "nat option"
  sampleDelta :: int
  ownsSftpClient :: bool
  ownsSSHClient :: bool

definition NewRemoteStatsCollectorFromSFTP :: "nat option \<Rightarrow> int \<Rightarrow> remoteStatsCollector" where
  "NewRemoteStatsCollectorFromSFTP sftp delta =
     \<lparr>sftpClient = sftp, sshClient = None, sampleDelta = delta,
      ownsSftpClient = False, ownsSSHClient = False\<rparr>"

definition NewRemoteStatsCollectorFromSSH ::
  "(nat \<Rightarrow> nat result) \<Rightarrow> nat \<Rightarrow> int \<Rightarrow> remoteStatsCollector result" where
  "NewRemoteStatsCollectorFromSSH newClient ssh delta =
     (case newClient ssh of
        Err e \<Rightarrow> Err (Wrapped ''failed to create SFTP client'' e)
      | Panic \<Rightarrow> Panic
      | Ok sftp \<Rightarrow> Ok (NewRemoteStatsCollectorFromSFTP (Some sftp) delta))"

definition NewRemoteStatsCollectorFromSSHConfig ::
  "(string \<Rightarrow> 'cfg \<Rightarrow> nat result) \<Rightarrow> (nat \<Rightarrow> nat result) \<Rightarrow> string \<Rightarrow> 'cfg \<Rightarrow> int
     \<Rightarrow> remoteStatsCollector result" where
  "NewRemoteStatsCollectorFromSSHConfig dial newClient serverAddress config delta =
     (case dial serverAddress config of
        Err e \<Rightarrow> Err (Wrapped ''failed to connect to SSH server'' e)
      | Panic \<Rightarrow> Panic
      | Ok ssh \<Rightarrow>
          (case NewRemoteStatsCollectorFromSSH newClient ssh delta of
             Err e \<Rightarrow> Err (Wrapped ''failed to create remote stats collector'' e)
           | Panic \<Rightarrow> Panic
           | Ok collector \<Rightarrow> Ok (collector\<lparr>ownsSSHClient := True\<rparr>)))"

text \<open>
  \<^verbatim>\<open>Close\<close> of the collector returns its error and, in order, the calls it made to the
  libraries' \<^verbatim>\<open>Close\<close> methods.
\<close>

datatype close_call = SftpClose nat | SshClose nat

definition Collector_Close ::
  "(nat \<Rightarrow> error option) \<Rightarrow> (nat \<Rightarrow> error option) \<Rightarrow> remoteStatsCollector
     \<Rightarrow> error option \<times> close_call list" where
  "Collector_Close sftpClose sshClose r =
     (let (err1, calls1) =
            (case sftpClient r of
               Some c \<Rightarrow> if ownsSftpClient r then (sftpClose c, [SftpClose c]) else (None, [])
             | None \<Rightarrow> (None, []))
      in case sshClient r of
           Some c \<Rightarrow>
             if ownsSSHClient r then
               (case sshClose c of
                  Some closeErr \<Rightarrow> (Some closeErr, calls1 @ [SshClose c])
                | None \<Rightarrow> (err1, calls1 @ [SshClose c]))
             else (err1, calls1)
         | None \<Rightarrow> (err1, calls1))"

subsection \<open>The monitor\<close>

text \<open>
  \<open>ctxDone\<close> says whether the monitor's context is cancelled. The default formatter
  \<^verbatim>\<open>jsonLogLine\<close> reads the clock and calls the JSON library; it is the parameter
  \<open>jsonLogLine\<close> of the constructors.
\<close>

record RemoteStatsMonitor =
  collector :: remoteStatsCollector
  interval :: int
  monitorSampleDelta :: int
  logLineFunc :: "SystemStats \<Rightarrow> string result"
  ctxDone :: bool

definition NewRemoteStatsMonitorFromSFTP ::
  "(SystemStats \<Rightarrow> string result) \<Rightarrow> nat option \<Rightarrow> int \<Rightarrow> int \<Rightarrow> RemoteStatsMonitor" where
  "NewRemoteStatsMonitorFromSFTP jsonLogLine sftp ival delta =
     \<lparr>collector = NewRemoteStatsCollectorFromSFTP sftp delta,
      interval = ival, monitorSampleDelta = delta,
      logLineFunc = jsonLogLine, ctxDone = False\<rparr>"

definition NewRemoteStatsMonitorFromSSH ::
  "(SystemStats \<Rightarrow> string result) \<Rightarrow> (nat \<Rightarrow> nat result) \<Rightarrow> nat \<Rightarrow> int \<Rightarrow> int
     \<Rightarrow> RemoteStatsMonitor result" where
  "NewRemoteStatsMonitorFromSSH jsonLogLine newClient ssh ival delta =
     (case NewRemoteStatsCollectorFromSSH newClient ssh delta of
        Err e \<Rightarrow> Err (Wrapped ''failed to create collector'' e)
      | Panic \<Rightarrow> Panic
      | Ok c \<Rightarrow>
          Ok \<lparr>collector = c, interval = ival, monitorSampleDelta = delta,
              logLineFunc = jsonLogLine, ctxDone = False\<rparr>)"

definition NewRemoteStatsMonitorFromSSHConfig ::
  "(SystemStats \<Rightarrow> string result) \<Rightarrow> (string \<Rightarrow> 'cfg \<Rightarrow> nat result) \<Rightarrow> (nat \<Rightarrow> nat result)
     \<Rightarrow> string \<Rightarrow> 'cfg \<Rightarrow> int \<Rightarrow> int \<Rightarrow> RemoteStatsMonitor result" where
  "NewRemoteStatsMonitorFromSSHConfig jsonLogLine dial newClient serverAddress config ival delta =
     (case NewRemoteStatsCollectorFromSSHConfig dial newClient serverAddress config delta of
        Err e \<Rightarrow> Err (Wrapped ''failed to create collector'' e)
      | Panic \<Rightarrow> Panic
      | Ok c \<Rightarrow>
          Ok \<lparr>collector = c, interval = ival, monitorSampleDelta = delta,
              logLineFunc = jsonLogLine, ctxDone = False\<rparr>)"

text \<open>\<^verbatim>\<open>Stop\<close> cancels the context (and waits for the loop); \<^verbatim>\<open>Close\<close> stops, then closes the collector.\<close>

definition Stop :: "RemoteStatsMonitor \<Rightarrow> RemoteStatsMonitor" where
  "Stop m = m\<lparr>ctxDone := True\<rparr>"

definition Monitor_Close ::
  "(nat \<Rightarrow> error option) \<Rightarrow> (nat \<Rightarrow> error option) \<Rightarrow> RemoteStatsMonitor
     \<Rightarrow> RemoteStatsMonitor \<times> error option \<times> close_call list" where
  "Monitor_Close sftpClose sshClose m =
     (let m' = Stop m in (m', Collector_Close sftpClose sshClose (collector m')))"








subsection \<open>Vocabulary of the statements\<close>

text \<open>
  \<open>key_values pf key lines\<close> lists, in the order of the lines, the values of the records
  of the memory resource that carry the key: the lines of at least two fields whose
  first field is the key and whose second field parses.
\<close>

definition key_values :: "(string \<Rightarrow> real option) \<Rightarrow> string \<Rightarrow> string list \<Rightarrow> real list" where
  "key_values pf key lines =
     concat (map (\<lambda>line. case Fields line of
                     k # tok # etc \<Rightarrow>
                       (if k = key then (case pf tok of Some v \<Rightarrow> [v] | None \<Rightarrow> []) else [])
                   | _ \<Rightarrow> []) lines)"

definition last_or :: "'a \<Rightarrow> 'a list \<Rightarrow> 'a" where
  "last_or d xs = (if xs = [] then d else last xs)"

text \<open>The reading "first occurrence wins" of the specification.\<close>

definition spec_first_or :: "'a \<Rightarrow> 'a list \<Rightarrow> 'a" where
  "spec_first_or d xs = (case xs of [] \<Rightarrow> d | x # etc \<Rightarrow> x)"

text \<open>
  The deltas of one core as the code takes them: over the counter positions of the row of
  the first sample. \<open>spec_totalDelta\<close> is the specification's \<^verbatim>\<open>sum(S2[core]) - sum(S1[core])\<close>.
\<close>

definition totalDelta :: "real list \<Rightarrow> real list \<Rightarrow> real" where
  "totalDelta values1 values2 = sum_list (take (length values1) values2) - sum_list values1"

definition idleDelta :: "real list \<Rightarrow> real list \<Rightarrow> real" where
  "idleDelta values1 values2 = values2 ! 3 - values1 ! 3"

definition spec_totalDelta :: "real list \<Rightarrow> real list \<Rightarrow> real" where
  "spec_totalDelta values1 values2 = sum_list values2 - sum_list values1"

text \<open>
  The percentage that a core contributes, if any: it is in both samples, its row in the
  first sample has at least four counters, and its total delta is not zero.
\<close>

definition core_percent :: "(string \<rightharpoonup> real list) \<Rightarrow> (string \<rightharpoonup> real list) \<Rightarrow> string \<Rightarrow> real option" where
  "core_percent stat1 stat2 core =
     (case stat1 core of
        None \<Rightarrow> None
      | Some values1 \<Rightarrow>
          (case stat2 core of
             None \<Rightarrow> None
           | Some values2 \<Rightarrow>
               if 3 < length values1 \<and> totalDelta values1 values2 \<noteq> 0
               then Some ((1 - idleDelta values1 values2 / totalDelta values1 values2) * 100)
               else None))"

definition core_entries :: "(string \<rightharpoonup> real list) \<Rightarrow> (string \<rightharpoonup> real list) \<Rightarrow> string list \<Rightarrow> CPUStat list" where
  "core_entries stat1 stat2 order =
     concat (map (\<lambda>core. if core = ''cpu'' then []
                          else (case core_percent stat1 stat2 core of
                                  Some u \<Rightarrow> [\<lparr>Core = core, UsagePct = u\<rparr>]
                                | None \<Rightarrow> [])) order)"

text \<open>The ids of the per-core lines of the CPU resource, in the order of the lines.\<close>

definition cpu_block :: "string list \<Rightarrow> string list" where
  "cpu_block lines = takeWhile (\<lambda>line. HasPrefix line ''cpu'') lines"

definition cpu_line_ids :: "string list \<Rightarrow> string list" where
  "cpu_line_ids lines =
     filter (\<lambda>core. core \<noteq> ''cpu'') (concat (map (\<lambda>line. take 1 (Fields line)) (cpu_block lines)))"

text \<open>A counter token of a line of the leading \<^verbatim>\<open>cpu\<close> block does not parse.\<close>

definition bad_counter_token :: "(string \<Rightarrow> real option) \<Rightarrow> string list \<Rightarrow> bool" where
  "bad_counter_token pf lines =
     list_ex (\<lambda>line. list_ex (\<lambda>tok. pf tok = None) (tl (Fields line))) (cpu_block lines)"




subsection \<open>The inputs of the examples\<close>

text \<open>
  One collection cycle: the memory resource and the two readings of the CPU resource of
  the specification's end-to-end examples, with no read error.
\<close>

definition example_env :: cycle_env where
  "example_env =
     \<lparr>meminfo = Opened [''MemTotal: 8000000'', ''MemAvailable: 4000000''] (\<lambda>n. None),
      stat_first = Opened [''cpu0 100 0 100 700'', ''intr 5''] (\<lambda>n. None),
      stat_second = Opened [''cpu0 110 0 110 770'', ''intr 9''] (\<lambda>n. None),
      range_order = [''cpu0'']\<rparr>"

text \<open>
  No row of the second sample is shorter than the row that the first sample has for the
  same core, for the cores that the loop visits.
\<close>

definition rows_fit :: "(string \<rightharpoonup> real list) \<Rightarrow> (string \<rightharpoonup> real list) \<Rightarrow> string list \<Rightarrow> bool" where
  "rows_fit stat1 stat2 order =
     list_all (\<lambda>core. case stat1 core of None \<Rightarrow> True
                 | Some v1 \<Rightarrow> (case stat2 core of None \<Rightarrow> True | Some v2 \<Rightarrow> length v1 \<le> length v2))
       order"

text \<open>The two readings of a CPU resource with the aggregate row and two cores.\<close>

definition two_cores_first :: "string list" where
  "two_cores_first =
     [''cpu  200 0 200 1400'', ''cpu0 100 0 100 700'', ''cpu1 100 0 100 700'', ''intr 5'']"

definition two_cores_second :: "string list" where
  "two_cores_second =
     [''cpu  230 0 230 1520'', ''cpu0 110 0 110 770'', ''cpu1 120 0 120 750'', ''intr 9'']"




section \<open>The memory sub-step\<close>

text \<open>The equations that evaluate the library functions and the CPU sub-step on concrete input.\<close>

lemmas eval_strings = Fields_def isSpace_def parseDecimal_def digit_val_def HasPrefix_def

lemmas eval_cpu = getCPUStats_def snapshot_def core_usage_def sum_loop_def sum_step_def upt_rec

text \<open>
  The scanning loop keeps, for each of the two keys, the value of the last record that
  carries it; the start value stays when there is none.
\<close>

lemma meminfo_loop_last:
  "meminfo_loop pf lines (t, a) =
     (last_or t (key_values pf ''MemTotal:'' lines),
      last_or a (key_values pf ''MemAvailable:'' lines))"
proof (induction lines arbitrary: t a)
  case Nil
  show ?case by (simp add: key_values_def last_or_def)
next
  case (Cons l ls)
  show ?case
  proof (cases "Fields l")
    case Nil
    then show ?thesis using Cons by (simp add: key_values_def)
  next
    case (Cons k r)
    note c1 = this
    show ?thesis
    proof (cases r)
      case Nil
      then show ?thesis using c1 Cons.IH by (simp add: key_values_def)
    next
      case (Cons tok etc)
      then show ?thesis using c1 Cons.IH
        by (cases "pf tok") (simp_all add: key_values_def last_or_def)
    qed
  qed
qed

lemma key_values_append:
  "key_values pf key (xs @ ys) = key_values pf key xs @ key_values pf key ys"
  by (simp add: key_values_def)

lemma last_or_append: "last_or d (xs @ ys) = last_or (last_or d xs) ys"
  by (simp add: last_or_def)

lemma meminfo_loop_append:
  "meminfo_loop pf (xs @ ys) acc = meminfo_loop pf ys (meminfo_loop pf xs acc)"
  by (cases acc) (simp add: meminfo_loop_last key_values_append last_or_append)

lemma getMemoryStats_Opened:
  "scanErr (Suc (length lines)) = None \<Longrightarrow>
   getMemoryStats pf (Opened lines scanErr) =
     (let t = last_or 0 (key_values pf ''MemTotal:'' lines);
          a = last_or 0 (key_values pf ''MemAvailable:'' lines)
      in if t = 0 then Err InvalidMeminfo else Ok (t / 1024, (t - a) / 1024))"
  by (simp add: getMemoryStats_def meminfo_loop_last Let_def)

text \<open>
  Claim C3, as the code has it. Of the records of the memory resource with the key
  \<^verbatim>\<open>MemTotal:\<close> (and likewise \<^verbatim>\<open>MemAvailable:\<close>) the last one gives the value that the
  run uses, not the first one. A line that is a record of neither key (another key,
  fewer than two fields, or a value that does not parse) changes nothing, wherever it
  stands, and the loop has no error exit.
\<close>

theorem C3_last_occurrence_wins:
  "meminfo_loop pf lines (0, 0) =
     (last_or 0 (key_values pf ''MemTotal:'' lines),
      last_or 0 (key_values pf ''MemAvailable:'' lines))
   \<and> (key_values pf ''MemTotal:'' [line] = [] \<and> key_values pf ''MemAvailable:'' [line] = []
        \<longrightarrow> meminfo_loop pf (pre @ line # post) acc = meminfo_loop pf (pre @ post) acc)"
proof -
  have "meminfo_loop pf [line] st = st"
    if "key_values pf ''MemTotal:'' [line] = []" "key_values pf ''MemAvailable:'' [line] = []" for st
    using that by (cases st) (simp add: meminfo_loop_last last_or_def)
  then have "key_values pf ''MemTotal:'' [line] = [] \<and> key_values pf ''MemAvailable:'' [line] = []
        \<longrightarrow> meminfo_loop pf (pre @ line # post) acc = meminfo_loop pf (pre @ post) acc"
    using meminfo_loop_append [of pf pre "[line] @ post" acc]
      meminfo_loop_append [of pf "[line]" post] meminfo_loop_append [of pf pre post acc]
    by simp
  then show ?thesis by (simp add: meminfo_loop_last)
qed

theorem C3_last_occurrence_wins_witness:
  "meminfo_loop parseDecimal
     [''MemTotal: 2048 kB'', ''Buffers: 7 kB'', ''MemTotal: 4096 kB''] (0, 0) = (4096, 0)
   \<and> meminfo_loop parseDecimal
       ([''MemTotal: 2048 kB''] @ ''MemFree: x'' # [''MemAvailable: 1024 kB'']) (0, 0)
     = meminfo_loop parseDecimal ([''MemTotal: 2048 kB''] @ [''MemAvailable: 1024 kB'']) (0, 0)"
  using C3_last_occurrence_wins
      [of parseDecimal "[''MemTotal: 2048 kB'', ''Buffers: 7 kB'', ''MemTotal: 4096 kB'']"]
    C3_last_occurrence_wins
      [of parseDecimal _ "''MemFree: x''" "[''MemTotal: 2048 kB'']"
          "[''MemAvailable: 1024 kB'']" "(0, 0)"]
  by (simp add: key_values_def last_or_def Fields_def isSpace_def parseDecimal_def digit_val_def)

text \<open>
  Claim C3 as the specification states it fails: with two \<^verbatim>\<open>MemTotal:\<close> lines the loop
  ends with the value of the second, 4096, where "first occurrence wins" gives 2048.
\<close>

theorem C3_first_occurrence_counterexample:
  "fst (meminfo_loop parseDecimal [''MemTotal: 2048 kB'', ''MemTotal: 4096 kB''] (0, 0))
     \<noteq> spec_first_or 0
          (key_values parseDecimal ''MemTotal:'' [''MemTotal: 2048 kB'', ''MemTotal: 4096 kB''])"
  by (simp add: spec_first_or_def key_values_def Fields_def isSpace_def parseDecimal_def
      digit_val_def)

lemma no_key_line:
  "\<not> list_ex (\<lambda>l. take 1 (Fields l) = [key]) lines \<Longrightarrow> key_values pf key lines = []"
proof (induction lines)
  case Nil
  show ?case by (simp add: key_values_def)
next
  case (Cons l ls)
  then have "key_values pf key ls = []" by simp
  moreover have "key_values pf key [l] = []"
    using Cons.prems by (auto simp: key_values_def split: list.splits)
  ultimately show ?case using key_values_append [of pf key "[l]" ls] by simp
qed

text \<open>
  Claim C5. When the memory resource is read without error and its (last) \<^verbatim>\<open>MemTotal:\<close>
  record carries a positive value \<open>T\<close> and its (last) \<^verbatim>\<open>MemAvailable:\<close> record the value
  \<open>A\<close>, the memory sub-step succeeds with \<open>totalMB = T / 1024\<close> and
  \<open>usedMB = (T - A) / 1024\<close>, and every snapshot that \<^verbatim>\<open>GetSystemStats\<close> then returns has
  these two values and the percentage \<open>usedMB / totalMB * 100\<close>. The witness is the
  specification's example: 8000000 and 4000000 give 7812.5, 3906.25 and 50.
\<close>

theorem C5_memory_conversion:
  assumes "meminfo env = Opened lines scanErr" and "scanErr (Suc (length lines)) = None"
    and "key_values pf ''MemTotal:'' lines \<noteq> []"
    and "last (key_values pf ''MemTotal:'' lines) = T" and "0 < T"
    and "key_values pf ''MemAvailable:'' lines \<noteq> []"
    and "last (key_values pf ''MemAvailable:'' lines) = A"
  shows "getMemoryStats pf (meminfo env) = Ok (T / 1024, (T - A) / 1024) \<and>
    (getCPUStats pf (stat_first env) (stat_second env) (range_order env) = Ok (totalCPU, coreStats)
      \<longrightarrow> GetSystemStats pf env =
            Ok \<lparr>TotalMemoryMB = T / 1024, UsedMemoryMB = (T - A) / 1024,
                UsedMemoryPercent = ((T - A) / 1024) / (T / 1024) * 100,
                TotalCPUPercentage = totalCPU, CPUStats = coreStats\<rparr>)"
proof -
  have mem: "getMemoryStats pf (meminfo env) = Ok (T / 1024, (T - A) / 1024)"
    using assms by (simp add: getMemoryStats_Opened last_or_def)
  then show ?thesis by (simp add: GetSystemStats_def)
qed

theorem C5_memory_conversion_witness:
  "GetSystemStats parseDecimal example_env =
     Ok \<lparr>TotalMemoryMB = 7812.5, UsedMemoryMB = 3906.25, UsedMemoryPercent = 50,
         TotalCPUPercentage = 0, CPUStats = [\<lparr>Core = ''cpu0'', UsagePct = 200 / 9\<rparr>]\<rparr>"
proof -
  have k: "key_values parseDecimal ''MemTotal:'' [''MemTotal: 8000000'', ''MemAvailable: 4000000''] = [8000000]"
     "key_values parseDecimal ''MemAvailable:'' [''MemTotal: 8000000'', ''MemAvailable: 4000000''] = [4000000]"
    by (simp_all add: key_values_def eval_strings)
  have c: "getCPUStats parseDecimal (stat_first example_env) (stat_second example_env)
             (range_order example_env) = Ok (0, [\<lparr>Core = ''cpu0'', UsagePct = 200 / 9\<rparr>])"
    by (simp add: example_env_def eval_cpu eval_strings)
  show ?thesis
    using C5_memory_conversion [of example_env "[''MemTotal: 8000000'', ''MemAvailable: 4000000'']"
        "\<lambda>n. None" parseDecimal 8000000 4000000 0 "[\<lparr>Core = ''cpu0'', UsagePct = 200 / 9\<rparr>]"] k c
    by (simp add: example_env_def)
qed

text \<open>
  Claim C8. When the memory resource is read without error and has no \<^verbatim>\<open>MemTotal:\<close> line
  (or none whose value parses), or the value of its \<^verbatim>\<open>MemTotal:\<close> record is zero, the memory
  sub-step fails with the invalid-meminfo error and \<^verbatim>\<open>GetSystemStats\<close> returns that error,
  wrapped, and no snapshot.
\<close>

theorem C8_invalid_meminfo:
  assumes "meminfo env = Opened lines scanErr" and "scanErr (Suc (length lines)) = None"
    and "\<not> list_ex (\<lambda>l. take 1 (Fields l) = [''MemTotal:'']) lines
         \<or> key_values pf ''MemTotal:'' lines = []
         \<or> last (key_values pf ''MemTotal:'' lines) = 0"
  shows "getMemoryStats pf (meminfo env) = Err InvalidMeminfo \<and>
    GetSystemStats pf env = Err (Wrapped ''failed to get memory stats'' InvalidMeminfo)"
proof -
  have "last_or 0 (key_values pf ''MemTotal:'' lines) = 0"
    using assms(3) no_key_line [of "''MemTotal:''" lines pf] by (auto simp: last_or_def)
  then have "getMemoryStats pf (meminfo env) = Err InvalidMeminfo"
    using assms(1,2) by (simp add: getMemoryStats_Opened)
  then show ?thesis by (simp add: GetSystemStats_def)
qed

theorem C8_invalid_meminfo_witness:
  "GetSystemStats parseDecimal
     (example_env\<lparr>meminfo := Opened [''MemFree: 100 kB'', ''MemAvailable: 50 kB''] (\<lambda>n. None)\<rparr>)
     = Err (Wrapped ''failed to get memory stats'' InvalidMeminfo)
   \<and> GetSystemStats parseDecimal
     (example_env\<lparr>meminfo := Opened [''MemTotal: 0 kB'', ''MemAvailable: 0 kB''] (\<lambda>n. None)\<rparr>)
     = Err (Wrapped ''failed to get memory stats'' InvalidMeminfo)"
proof -
  let ?l1 = "[''MemFree: 100 kB'', ''MemAvailable: 50 kB'']"
  let ?l2 = "[''MemTotal: 0 kB'', ''MemAvailable: 0 kB'']"
  have a: "\<not> list_ex (\<lambda>l. take 1 (Fields l) = [''MemTotal:'']) ?l1"
    by (simp add: eval_strings)
  have b: "last (key_values parseDecimal ''MemTotal:'' ?l2) = 0"
    by (simp add: key_values_def eval_strings)
  show ?thesis
    using C8_invalid_meminfo [of "example_env\<lparr>meminfo := Opened ?l1 (\<lambda>n. None)\<rparr>" ?l1 "\<lambda>n. None" parseDecimal]
      C8_invalid_meminfo [of "example_env\<lparr>meminfo := Opened ?l2 (\<lambda>n. None)\<rparr>" ?l2 "\<lambda>n. None" parseDecimal]
      a b
    by simp
qed

text \<open>
  Claim C10. When the memory resource is read without error, has a positive \<^verbatim>\<open>MemTotal:\<close>
  value and no \<^verbatim>\<open>MemAvailable:\<close> line whose value parses, the memory sub-step does not
  fail: \<open>available\<close> stays 0, so the used memory equals the total memory and every
  snapshot that \<^verbatim>\<open>GetSystemStats\<close> then returns reports 100 percent.
\<close>

theorem C10_missing_available:
  assumes "meminfo env = Opened lines scanErr" and "scanErr (Suc (length lines)) = None"
    and "key_values pf ''MemTotal:'' lines \<noteq> []"
    and "last (key_values pf ''MemTotal:'' lines) = T" and "0 < T"
    and "key_values pf ''MemAvailable:'' lines = []"
  shows "getMemoryStats pf (meminfo env) = Ok (T / 1024, T / 1024) \<and>
    (getCPUStats pf (stat_first env) (stat_second env) (range_order env) = Ok (totalCPU, coreStats)
      \<longrightarrow> GetSystemStats pf env =
            Ok \<lparr>TotalMemoryMB = T / 1024, UsedMemoryMB = T / 1024, UsedMemoryPercent = 100,
                TotalCPUPercentage = totalCPU, CPUStats = coreStats\<rparr>)"
proof -
  have mem: "getMemoryStats pf (meminfo env) = Ok (T / 1024, T / 1024)"
    using assms by (simp add: getMemoryStats_Opened last_or_def)
  then show ?thesis using \<open>0 < T\<close> by (simp add: GetSystemStats_def)
qed

theorem C10_missing_available_witness:
  "GetSystemStats parseDecimal
     (example_env\<lparr>meminfo := Opened [''MemTotal: 2048 kB'', ''MemAvailable: n/a''] (\<lambda>n. None)\<rparr>) =
     Ok \<lparr>TotalMemoryMB = 2, UsedMemoryMB = 2, UsedMemoryPercent = 100,
         TotalCPUPercentage = 0, CPUStats = [\<lparr>Core = ''cpu0'', UsagePct = 200 / 9\<rparr>]\<rparr>"
proof -
  let ?ls = "[''MemTotal: 2048 kB'', ''MemAvailable: n/a'']"
  let ?env = "example_env\<lparr>meminfo := Opened ?ls (\<lambda>n. None)\<rparr>"
  have k: "key_values parseDecimal ''MemTotal:'' ?ls = [2048]"
     "key_values parseDecimal ''MemAvailable:'' ?ls = []"
    by (simp_all add: key_values_def eval_strings)
  have c: "getCPUStats parseDecimal (stat_first ?env) (stat_second ?env)
             (range_order ?env) = Ok (0, [\<lparr>Core = ''cpu0'', UsagePct = 200 / 9\<rparr>])"
    by (simp add: example_env_def eval_cpu eval_strings)
  show ?thesis
    using C10_missing_available [of ?env ?ls "\<lambda>n. None" parseDecimal 2048 0
        "[\<lparr>Core = ''cpu0'', UsagePct = 200 / 9\<rparr>]"] k c
    by simp
qed

section \<open>The CPU sub-step\<close>

text \<open>
  The summation loop adds up the row of the first sample and as many counters of the row
  of the second sample; it panics exactly when the second row is the shorter one.
\<close>

lemma sum_step_not_Ok:
  "fold (sum_step v1 v2) is Panic = Panic"
  by (induction "is") (simp_all add: sum_step_def)

lemma sum_fold_prefix:
  "n \<le> length v1 \<Longrightarrow> n \<le> length v2 \<Longrightarrow>
   fold (sum_step v1 v2) [0..<n] (Ok (0, 0)) = Ok (sum_list (take n v1), sum_list (take n v2))"
proof (induction n)
  case 0
  show ?case by simp
next
  case (Suc n)
  then show ?case
    by (simp add: sum_step_def take_Suc_conv_app_nth)
qed

lemma sum_loop_Ok:
  "length v1 \<le> length v2 \<Longrightarrow>
   sum_loop v1 v2 = Ok (sum_list v1, sum_list (take (length v1) v2))"
  using sum_fold_prefix [of "length v1" v1 v2] by (simp add: sum_loop_def)

lemma sum_loop_Panic:
  assumes "length v2 < length v1"
  shows "sum_loop v1 v2 = Panic"
proof -
  have split: "[0..<length v1] = [0..<length v2] @ length v2 # [Suc (length v2)..<length v1]"
  proof -
    have "[0..<length v1] = [0..<length v2] @ [length v2..<length v1]"
      using assms upt_add_eq_append [of 0 "length v2" "length v1 - length v2"] by simp
    then show ?thesis using assms by (simp add: upt_conv_Cons)
  qed
  have "fold (sum_step v1 v2) [0..<length v2] (Ok (0, 0))
          = Ok (sum_list (take (length v2) v1), sum_list (take (length v2) v2))"
    using assms by (intro sum_fold_prefix) simp_all
  then show ?thesis
    unfolding sum_loop_def split
    by (simp add: sum_step_def sum_step_not_Ok)
qed

lemma core_usage_eq:
  "core_usage v1 v2 =
     (if length v2 < length v1 then Panic
      else if 3 < length v1 \<and> totalDelta v1 v2 \<noteq> 0
        then Ok (Some ((1 - idleDelta v1 v2 / totalDelta v1 v2) * 100))
      else Ok None)"
  by (auto simp: core_usage_def sum_loop_Ok sum_loop_Panic totalDelta_def idleDelta_def Let_def)

text \<open>
  The loop over the first sample: when it returns, \<open>perCore\<close> holds the entries of the
  contributing cores in the order of the iteration and \<open>totalUsage\<close> the percentage of
  the aggregate row; it returns when the rows fit and panics when they do not.
\<close>

lemma core_percent_step:
  assumes "stat1 core = Some v1" and "stat2 core = Some v2"
  shows "core_usage v1 v2 = Ok None \<Longrightarrow> core_percent stat1 stat2 core = None"
    and "core_usage v1 v2 = Ok (Some u) \<Longrightarrow> core_percent stat1 stat2 core = Some u"
  using assms by (auto simp: core_percent_def core_usage_eq split: if_splits)

lemma core_entries_Cons:
  "core_entries stat1 stat2 (c # cs) = core_entries stat1 stat2 [c] @ core_entries stat1 stat2 cs"
  by (simp add: core_entries_def)

lemma range_stat1_Ok:
  "range_stat1 stat1 stat2 order (tu, pc) = Ok (tu', pc') \<Longrightarrow>
     pc' = pc @ core_entries stat1 stat2 order \<and>
     tu' = (if ''cpu'' \<in> set order
            then (case core_percent stat1 stat2 ''cpu'' of Some u \<Rightarrow> u | None \<Rightarrow> tu)
            else tu)"
proof (induction order arbitrary: tu pc)
  case Nil
  then show ?case by (simp add: core_entries_def)
next
  case (Cons c cs)
  show ?case
  proof (cases "stat1 c")
    case None
    then have "core_percent stat1 stat2 c = None" by (simp add: core_percent_def)
    moreover have "range_stat1 stat1 stat2 cs (tu, pc) = Ok (tu', pc')"
      using Cons.prems None by simp
    ultimately show ?thesis using Cons.IH [of tu pc]
      by (auto simp: core_entries_def)
  next
    case (Some v1)
    note s1 = this
    show ?thesis
    proof (cases "stat2 c")
      case None
      then have "core_percent stat1 stat2 c = None" using s1 by (simp add: core_percent_def)
      moreover have "range_stat1 stat1 stat2 cs (tu, pc) = Ok (tu', pc')"
        using Cons.prems None s1 by simp
      ultimately show ?thesis using Cons.IH [of tu pc]
        by (auto simp: core_entries_def)
    next
      case (Some v2)
      note s2 = this
      show ?thesis
      proof (cases "core_usage v1 v2")
        case (Ok r)
        show ?thesis
        proof (cases r)
          case None
          then have "core_percent stat1 stat2 c = None"
            using core_percent_step(1) [of stat1 c v1 stat2 v2] s1 s2 Ok by simp
          moreover have "range_stat1 stat1 stat2 cs (tu, pc) = Ok (tu', pc')"
            using Cons.prems s1 s2 Ok None by simp
          ultimately show ?thesis using Cons.IH [of tu pc]
            by (auto simp: core_entries_def)
        next
          case (Some u)
          then have cp: "core_percent stat1 stat2 c = Some u"
            using core_percent_step(2) [of stat1 c v1 stat2 v2 u] s1 s2 Ok by simp
          show ?thesis
          proof (cases "c = ''cpu''")
            case True
            then have "range_stat1 stat1 stat2 cs (u, pc) = Ok (tu', pc')"
              using Cons.prems s1 s2 Ok Some by simp
            then show ?thesis using Cons.IH [of u pc] cp True
              by (auto simp: core_entries_def)
          next
            case False
            then have "range_stat1 stat1 stat2 cs (tu, pc @ [\<lparr>Core = c, UsagePct = u\<rparr>]) = Ok (tu', pc')"
              using Cons.prems s1 s2 Ok Some by simp
            then show ?thesis using Cons.IH [of tu "pc @ [\<lparr>Core = c, UsagePct = u\<rparr>]"] cp False
              by (auto simp: core_entries_def)
          qed
        qed
      next
        case (Err e)
        then show ?thesis using Cons.prems s1 s2 by simp
      next
        case Panic
        then show ?thesis using Cons.prems s1 s2 by simp
      qed
    qed
  qed
qed

lemma core_usage_not_Err: "core_usage v1 v2 \<noteq> Err e"
  by (simp add: core_usage_eq)


lemma range_stat1_total:
  "rows_fit stat1 stat2 order \<Longrightarrow> \<exists>r. range_stat1 stat1 stat2 order (tu, pc) = Ok r"
proof (induction order arbitrary: tu pc)
  case Nil
  show ?case by simp
next
  case (Cons c cs)
  then have fit: "rows_fit stat1 stat2 cs" by (simp add: rows_fit_def)
  show ?case
    using Cons.prems Cons.IH [OF fit]
    by (auto simp: rows_fit_def core_usage_eq split: option.splits)
qed

lemma range_stat1_Panic:
  "\<not> rows_fit stat1 stat2 order \<Longrightarrow> range_stat1 stat1 stat2 order (tu, pc) = Panic"
proof (induction order arbitrary: tu pc)
  case Nil
  then show ?case by (simp add: rows_fit_def)
next
  case (Cons c cs)
  show ?case
  proof (cases "rows_fit stat1 stat2 [c]")
    case True
    then have "\<not> rows_fit stat1 stat2 cs" using Cons.prems by (simp add: rows_fit_def)
    then have "\<And>tu pc. range_stat1 stat1 stat2 cs (tu, pc) = Panic" using Cons.IH by simp
    then show ?thesis
      by (auto simp: core_usage_eq split: option.splits)
  next
    case False
    then show ?thesis
      by (auto simp: rows_fit_def core_usage_eq split: option.splits)
  qed
qed

lemma map_Core_core_entries:
  "map Core (core_entries stat1 stat2 order) =
     filter (\<lambda>core. core \<noteq> ''cpu'' \<and> core_percent stat1 stat2 core \<noteq> None) order"
  by (induction order) (auto simp: core_entries_def split: option.splits)

lemma getCPUStats_Ok:
  assumes "snapshot pf file1 = Ok stat1" and "snapshot pf file2 = Ok stat2"
    and "getCPUStats pf file1 file2 order = Ok (totalUsage, perCore)"
  shows "perCore = core_entries stat1 stat2 order"
    and "totalUsage = (if ''cpu'' \<in> set order
            then (case core_percent stat1 stat2 ''cpu'' of Some u \<Rightarrow> u | None \<Rightarrow> 0)
            else 0)"
  using assms range_stat1_Ok [of stat1 stat2 order 0 "[]" totalUsage perCore]
  by (simp_all add: getCPUStats_def)

text \<open>
  The closure \<^verbatim>\<open>snapshot\<close> never panics (a line with the prefix \<^verbatim>\<open>cpu\<close> has a first field), and
  a counter token of the leading \<^verbatim>\<open>cpu\<close> block that does not parse makes it return the parse
  error.
\<close>

lemma fields_from_nonempty: "cur \<noteq> [] \<Longrightarrow> fields_from cur s \<noteq> []"
  by (induction s arbitrary: cur) auto

lemma HasPrefix_cpu_Fields: "HasPrefix line ''cpu'' \<Longrightarrow> Fields line \<noteq> []"
proof -
  assume "HasPrefix line ''cpu''"
  then obtain r where "line = CHR ''c'' # r"
    by (cases line) (auto simp: HasPrefix_def)
  then show ?thesis
    by (simp add: Fields_def isSpace_def fields_from_nonempty)
qed

lemma parse_values_not_Panic: "parse_values pf toks acc \<noteq> Panic"
  by (induction toks arbitrary: acc) (auto split: option.splits)

lemma parse_values_bad:
  "list_ex (\<lambda>tok. pf tok = None) toks \<Longrightarrow>
   \<exists>tok. pf tok = None \<and>
     parse_values pf toks acc = Err (Wrapped ''failed to parse CPU stat'' (NumError tok))"
  by (induction toks arbitrary: acc) (auto split: option.splits)

lemma parse_values_good:
  "\<not> list_ex (\<lambda>tok. pf tok = None) toks \<Longrightarrow> \<exists>vs. parse_values pf toks acc = Ok vs"
  by (induction toks arbitrary: acc) (auto split: option.splits)

lemma snapshot_loop_not_Panic: "snapshot_loop pf lines n stats \<noteq> Panic"
proof (induction lines arbitrary: n stats)
  case Nil
  show ?case by simp
next
  case (Cons l ls)
  show ?case
    using Cons.IH HasPrefix_cpu_Fields [of l] parse_values_not_Panic [of pf _ "[]"]
    by (auto split: list.splits result.splits)
qed

lemma snapshot_not_Panic: "snapshot pf file \<noteq> Panic"
  using snapshot_loop_not_Panic
  by (auto simp: snapshot_def split: remote_file.splits result.splits option.splits)

lemma snapshot_loop_bad:
  "bad_counter_token pf lines \<Longrightarrow>
   \<exists>tok. pf tok = None \<and>
     snapshot_loop pf lines n stats = Err (Wrapped ''failed to parse CPU stat'' (NumError tok))"
proof (induction lines arbitrary: n stats)
  case Nil
  then show ?case by (simp add: bad_counter_token_def cpu_block_def)
next
  case (Cons l ls)
  from Cons.prems have pre: "HasPrefix l ''cpu''"
    by (auto simp: bad_counter_token_def cpu_block_def split: if_splits)
  then obtain core toks where f: "Fields l = core # toks"
    using HasPrefix_cpu_Fields [of l] by (cases "Fields l") auto
  show ?case
  proof (cases "list_ex (\<lambda>tok. pf tok = None) toks")
    case True
    then show ?thesis using parse_values_bad [of pf toks "[]"] pre f by auto
  next
    case False
    then obtain vs where vs: "parse_values pf toks [] = Ok vs"
      using parse_values_good [of pf toks "[]"] by auto
    from False Cons.prems pre f have bad: "bad_counter_token pf ls"
      by (simp add: bad_counter_token_def cpu_block_def)
    have step: "snapshot_loop pf (l # ls) n stats = snapshot_loop pf ls (Suc n) (stats(core \<mapsto> vs))"
      using pre f vs by simp
    show ?thesis unfolding step by (rule Cons.IH [OF bad])
  qed
qed

lemma snapshot_bad:
  "bad_counter_token pf lines \<Longrightarrow>
   \<exists>tok. pf tok = None \<and>
     snapshot pf (Opened lines scanErr) = Err (Wrapped ''failed to parse CPU stat'' (NumError tok))"
  using snapshot_loop_bad [of pf lines 0 Map.empty] by (auto simp: snapshot_def)

lemma getMemoryStats_not_Panic: "getMemoryStats pf file \<noteq> Panic"
  by (auto simp: getMemoryStats_def split: remote_file.splits prod.splits option.splits)

text \<open>
  Claim C1, at a failing input. The first reading has the row \<^verbatim>\<open>cpu0 100 0 100 700\<close>, the
  second reading the row \<^verbatim>\<open>cpu0 110 0 110\<close> with fewer than four counters. The claim has
  this core skipped without error; the summation loop reads \<^verbatim>\<open>values2[3]\<close>, which does not
  exist, so \<^verbatim>\<open>getCPUStats\<close> and with it \<^verbatim>\<open>GetSystemStats\<close> panic. (\<open>range_stat1_total\<close> and
  \<open>range_stat1_Panic\<close> above say when this happens in general.)
\<close>

theorem C1_short_second_row_panics:
  "getCPUStats parseDecimal (Opened [''cpu0 100 0 100 700''] (\<lambda>n. None))
       (Opened [''cpu0 110 0 110''] (\<lambda>n. None)) [''cpu0''] = Panic
   \<and> GetSystemStats parseDecimal
       (example_env\<lparr>stat_first := Opened [''cpu0 100 0 100 700''] (\<lambda>n. None),
                    stat_second := Opened [''cpu0 110 0 110''] (\<lambda>n. None)\<rparr>) = Panic"
  by (simp add: GetSystemStats_def getMemoryStats_def example_env_def eval_cpu eval_strings)

text \<open>
  Claim C4, as the code has it. \<open>perCore\<close> lists the contributing cores other than \<^verbatim>\<open>cpu\<close>
  in the order in which the run time iterates over the map of the first sample, an order
  that Go leaves unspecified; when that order lists every key once, every contributing
  core has exactly one entry. The collector does not sort.
\<close>

theorem C4_order_of_iteration:
  assumes "snapshot pf file1 = Ok stat1" and "snapshot pf file2 = Ok stat2"
    and "getCPUStats pf file1 file2 order = Ok (totalUsage, perCore)"
  shows "map Core perCore =
           filter (\<lambda>core. core \<noteq> ''cpu'' \<and> core_percent stat1 stat2 core \<noteq> None) order
    \<and> (range_ok order stat1 \<longrightarrow>
         distinct (map Core perCore) \<and>
         set (map Core perCore) =
           {core \<in> dom stat1. core \<noteq> ''cpu'' \<and> core_percent stat1 stat2 core \<noteq> None})"
proof -
  have m: "map Core perCore =
           filter (\<lambda>core. core \<noteq> ''cpu'' \<and> core_percent stat1 stat2 core \<noteq> None) order"
    using getCPUStats_Ok(1) [OF assms] by (simp add: map_Core_core_entries)
  then show ?thesis by (auto simp: range_ok_def)
qed

theorem C4_order_of_iteration_witness:
  "range_ok [''cpu1'', ''cpu'', ''cpu0'']
       [''cpu'' \<mapsto> [200, 0, 200, 1400], ''cpu0'' \<mapsto> [100, 0, 100, 700],
        ''cpu1'' \<mapsto> [100, 0, 100, 700]]
   \<and> map Core [\<lparr>Core = ''cpu1'', UsagePct = 400 / 9\<rparr>, \<lparr>Core = ''cpu0'', UsagePct = 200 / 9\<rparr>] =
     filter (\<lambda>core. core \<noteq> ''cpu'' \<and>
               core_percent
                 [''cpu'' \<mapsto> [200, 0, 200, 1400], ''cpu0'' \<mapsto> [100, 0, 100, 700],
                  ''cpu1'' \<mapsto> [100, 0, 100, 700]]
                 [''cpu'' \<mapsto> [230, 0, 230, 1520], ''cpu0'' \<mapsto> [110, 0, 110, 770],
                  ''cpu1'' \<mapsto> [120, 0, 120, 750]] core \<noteq> None)
       [''cpu1'', ''cpu'', ''cpu0'']
   \<and> distinct
       (map Core [\<lparr>Core = ''cpu1'', UsagePct = 400 / 9\<rparr>, \<lparr>Core = ''cpu0'', UsagePct = 200 / 9 :: real\<rparr>])"
proof -
  have s1: "snapshot parseDecimal (Opened two_cores_first (\<lambda>n. None)) =
      Ok [''cpu'' \<mapsto> [200, 0, 200, 1400], ''cpu0'' \<mapsto> [100, 0, 100, 700],
          ''cpu1'' \<mapsto> [100, 0, 100, 700]]"
    by (simp add: two_cores_first_def snapshot_def eval_strings)
  have s2: "snapshot parseDecimal (Opened two_cores_second (\<lambda>n. None)) =
      Ok [''cpu'' \<mapsto> [230, 0, 230, 1520], ''cpu0'' \<mapsto> [110, 0, 110, 770],
          ''cpu1'' \<mapsto> [120, 0, 120, 750]]"
    by (simp add: two_cores_second_def snapshot_def eval_strings)
  have g: "getCPUStats parseDecimal (Opened two_cores_first (\<lambda>n. None))
      (Opened two_cores_second (\<lambda>n. None)) [''cpu1'', ''cpu'', ''cpu0''] =
      Ok (100 / 3, [\<lparr>Core = ''cpu1'', UsagePct = 400 / 9\<rparr>, \<lparr>Core = ''cpu0'', UsagePct = 200 / 9\<rparr>])"
    by (simp add: two_cores_first_def two_cores_second_def eval_cpu eval_strings)
  have r: "range_ok [''cpu1'', ''cpu'', ''cpu0'']
       [''cpu'' \<mapsto> [200, 0, 200, 1400], ''cpu0'' \<mapsto> [100, 0, 100, 700],
        ''cpu1'' \<mapsto> [100, 0, 100, 700]]"
    by (auto simp: range_ok_def)
  show ?thesis
    using C4_order_of_iteration [OF s1 s2 g] r by blast
qed

text \<open>
  Claim C4 as the specification states it fails: the per-core lines appear in the order
  \<^verbatim>\<open>cpu0\<close>, \<^verbatim>\<open>cpu1\<close>; when the iteration over the map yields \<^verbatim>\<open>cpu1\<close> first, so does \<open>perCore\<close>.
\<close>

theorem C4_line_order_counterexample:
  "cpu_line_ids two_cores_first = [''cpu0'', ''cpu1'']
   \<and> snapshot parseDecimal (Opened two_cores_first (\<lambda>n. None)) =
       Ok [''cpu'' \<mapsto> [200, 0, 200, 1400], ''cpu0'' \<mapsto> [100, 0, 100, 700],
           ''cpu1'' \<mapsto> [100, 0, 100, 700]]
   \<and> range_ok [''cpu1'', ''cpu'', ''cpu0'']
       [''cpu'' \<mapsto> [200, 0, 200, 1400], ''cpu0'' \<mapsto> [100, 0, 100, 700],
        ''cpu1'' \<mapsto> [100, 0, 100, 700]]
   \<and> getCPUStats parseDecimal (Opened two_cores_first (\<lambda>n. None))
       (Opened two_cores_second (\<lambda>n. None)) [''cpu1'', ''cpu'', ''cpu0''] =
       Ok (100 / 3, [\<lparr>Core = ''cpu1'', UsagePct = 400 / 9\<rparr>, \<lparr>Core = ''cpu0'', UsagePct = 200 / 9\<rparr>])
   \<and> map Core [\<lparr>Core = ''cpu1'', UsagePct = 400 / 9\<rparr>, \<lparr>Core = ''cpu0'', UsagePct = 200 / 9 :: real\<rparr>]
       \<noteq> cpu_line_ids two_cores_first"
proof -
  have ids: "cpu_line_ids two_cores_first = [''cpu0'', ''cpu1'']"
    by (simp add: cpu_line_ids_def cpu_block_def two_cores_first_def eval_strings)
  have s1: "snapshot parseDecimal (Opened two_cores_first (\<lambda>n. None)) =
      Ok [''cpu'' \<mapsto> [200, 0, 200, 1400], ''cpu0'' \<mapsto> [100, 0, 100, 700],
          ''cpu1'' \<mapsto> [100, 0, 100, 700]]"
    by (simp add: two_cores_first_def snapshot_def eval_strings)
  have r: "range_ok [''cpu1'', ''cpu'', ''cpu0'']
       [''cpu'' \<mapsto> [200, 0, 200, 1400], ''cpu0'' \<mapsto> [100, 0, 100, 700],
        ''cpu1'' \<mapsto> [100, 0, 100, 700]]"
    by (auto simp: range_ok_def)
  have g: "getCPUStats parseDecimal (Opened two_cores_first (\<lambda>n. None))
      (Opened two_cores_second (\<lambda>n. None)) [''cpu1'', ''cpu'', ''cpu0''] =
      Ok (100 / 3, [\<lparr>Core = ''cpu1'', UsagePct = 400 / 9\<rparr>, \<lparr>Core = ''cpu0'', UsagePct = 200 / 9\<rparr>])"
    by (simp add: two_cores_first_def two_cores_second_def eval_cpu eval_strings)
  show ?thesis using ids s1 r g by simp
qed

text \<open>
  The total delta of the code is a sum of per-counter deltas, which bounds the idle delta
  when no counter decreases.
\<close>

lemma totalDelta_sum:
  assumes "length v1 \<le> length v2"
  shows "totalDelta v1 v2 = (\<Sum>i<length v1. v2 ! i - v1 ! i)"
proof -
  have "sum_list (take (length v1) v2) = (\<Sum>i<length v1. v2 ! i)"
    using assms sum_list_sum_nth [of "take (length v1) v2"]
    by (simp add: atLeast0LessThan)
  moreover have "sum_list v1 = (\<Sum>i<length v1. v1 ! i)"
    using sum_list_sum_nth [of v1] by (simp add: atLeast0LessThan)
  ultimately show ?thesis by (simp add: totalDelta_def sum_subtractf)
qed

lemma usage_bounds:
  assumes "3 < length v1" and "length v1 \<le> length v2" and "totalDelta v1 v2 \<noteq> 0"
    and mono: "\<forall>i<length v1. v1 ! i \<le> v2 ! i"
  shows "0 \<le> (1 - idleDelta v1 v2 / totalDelta v1 v2) * 100"
    and "(1 - idleDelta v1 v2 / totalDelta v1 v2) * 100 \<le> 100"
proof -
  let ?f = "\<lambda>i. v2 ! i - v1 ! i"
  have T: "totalDelta v1 v2 = (\<Sum>i<length v1. ?f i)"
    using assms(2) by (rule totalDelta_sum)
  have nonneg: "\<forall>i\<in>{..<length v1}. 0 \<le> ?f i" using mono by simp
  then have "0 \<le> totalDelta v1 v2" unfolding T by (intro sum_nonneg) simp
  then have Tpos: "0 < totalDelta v1 v2" using assms(3) by simp
  have I0: "0 \<le> idleDelta v1 v2" using mono assms(1) by (simp add: idleDelta_def)
  have "?f 3 \<le> (\<Sum>i<length v1. ?f i)"
    using assms(1) nonneg by (intro member_le_sum) simp_all
  then have IT: "idleDelta v1 v2 \<le> totalDelta v1 v2" unfolding T by (simp add: idleDelta_def)
  define q where "q = idleDelta v1 v2 / totalDelta v1 v2"
  have q0: "0 \<le> q" unfolding q_def using I0 Tpos by simp
  have q1: "q \<le> 1" unfolding q_def using IT Tpos by simp
  show "0 \<le> (1 - idleDelta v1 v2 / totalDelta v1 v2) * 100"
    unfolding q_def [symmetric] using q1 by (simp add: zero_le_mult_iff)
  show "(1 - idleDelta v1 v2 / totalDelta v1 v2) * 100 \<le> 100"
    unfolding q_def [symmetric] using q0 by (simp add: left_diff_distrib)
qed

lemma core_entries_member:
  "core \<in> set order \<Longrightarrow> core \<noteq> ''cpu'' \<Longrightarrow> core_percent stat1 stat2 core = Some u \<Longrightarrow>
   \<lparr>Core = core, UsagePct = u\<rparr> \<in> set (core_entries stat1 stat2 order)"
  by (auto simp: core_entries_def)

text \<open>
  Claim C6, as the code has it. Take a core in both samples whose two rows have the same
  number of counters, at least four, all of them non-negative integers, each row with a
  sum of at most \<open>2^53\<close> (so that the sums that binary64 computes are the exact ones), and
  with \<open>totalDelta = sum(S2[core]) - sum(S1[core])\<close> not zero. Then the usage is
  \<open>(1 - idleDelta / totalDelta) * 100\<close>: it is the value of \<open>totalUsage\<close> for the id \<^verbatim>\<open>cpu\<close> and
  of the core's entry in \<open>perCore\<close> otherwise. When moreover no counter of the first row
  exceeds its counterpart in the second, the total delta is positive and the usage lies
  between 0 and 100. Rows of different lengths are left out. The witness is the
  specification's example: deltas 90 and 70, usage \<open>200/9\<close>, about 22.22.
\<close>

theorem C6_usage_formula:
  assumes "snapshot pf file1 = Ok stat1" and "snapshot pf file2 = Ok stat2"
    and "stat1 core = Some values1" and "stat2 core = Some values2"
    and "values1 = map real counters1" and "values2 = map real counters2"
    and "sum_list counters1 \<le> 2 ^ 53" and "sum_list counters2 \<le> 2 ^ 53"
    and "3 < length values1" and "length values1 = length values2"
    and "spec_totalDelta values1 values2 \<noteq> 0"
  shows "core_usage values1 values2 =
           Ok (Some ((1 - idleDelta values1 values2 / spec_totalDelta values1 values2) * 100))
    \<and> (getCPUStats pf file1 file2 order = Ok (totalUsage, perCore) \<and> core \<in> set order \<longrightarrow>
         (if core = ''cpu''
          then totalUsage = (1 - idleDelta values1 values2 / spec_totalDelta values1 values2) * 100
          else \<lparr>Core = core,
                UsagePct = (1 - idleDelta values1 values2 / spec_totalDelta values1 values2) * 100\<rparr>
                 \<in> set perCore))
    \<and> ((\<forall>i<length values1. values1 ! i \<le> values2 ! i) \<longrightarrow>
         0 < spec_totalDelta values1 values2
         \<and> 0 \<le> (1 - idleDelta values1 values2 / spec_totalDelta values1 values2) * 100
         \<and> (1 - idleDelta values1 values2 / spec_totalDelta values1 values2) * 100 \<le> 100)"
proof -
  have eq: "totalDelta values1 values2 = spec_totalDelta values1 values2"
    using assms(10) by (simp add: totalDelta_def spec_totalDelta_def)
  have le: "length values1 \<le> length values2" using assms(10) by simp
  have nz: "totalDelta values1 values2 \<noteq> 0" using assms(11) eq by simp
  let ?U = "(1 - idleDelta values1 values2 / spec_totalDelta values1 values2) * 100"
  have a: "core_usage values1 values2 = Ok (Some ?U)"
    using assms(9) le nz by (simp add: core_usage_eq eq)
  have cp: "core_percent stat1 stat2 core = Some ?U"
    using assms(3,4,9) nz by (simp add: core_percent_def eq)
  have b: "getCPUStats pf file1 file2 order = Ok (totalUsage, perCore) \<and> core \<in> set order \<longrightarrow>
         (if core = ''cpu'' then totalUsage = ?U
          else \<lparr>Core = core, UsagePct = ?U\<rparr> \<in> set perCore)"
  proof
    assume h: "getCPUStats pf file1 file2 order = Ok (totalUsage, perCore) \<and> core \<in> set order"
    then have g: "getCPUStats pf file1 file2 order = Ok (totalUsage, perCore)"
      and mem: "core \<in> set order" by simp_all
    note r = getCPUStats_Ok [OF assms(1,2) g]
    show "if core = ''cpu'' then totalUsage = ?U
          else \<lparr>Core = core, UsagePct = ?U\<rparr> \<in> set perCore"
    proof (cases "core = ''cpu''")
      case True
      then show ?thesis using r(2) mem cp by simp
    next
      case False
      then show ?thesis using r(1) core_entries_member [OF mem False cp] by simp
    qed
  qed
  have d: "(\<forall>i<length values1. values1 ! i \<le> values2 ! i) \<longrightarrow>
         0 < spec_totalDelta values1 values2 \<and> 0 \<le> ?U \<and> ?U \<le> 100"
  proof
    assume mono: "\<forall>i<length values1. values1 ! i \<le> values2 ! i"
    have "0 \<le> totalDelta values1 values2"
      unfolding totalDelta_sum [OF le] using mono by (intro sum_nonneg) simp
    then have "0 < spec_totalDelta values1 values2" using nz eq by simp
    then show "0 < spec_totalDelta values1 values2 \<and> 0 \<le> ?U \<and> ?U \<le> 100"
      using usage_bounds [OF assms(9) le nz mono] eq by simp
  qed
  from a b d show ?thesis by blast
qed

theorem C6_usage_formula_witness:
  "core_usage [100, 0, 100, 700] [110, 0, 110, 770] = Ok (Some (200 / 9))
   \<and> spec_totalDelta [100, 0, 100, 700] [110, 0, 110, 770] = 90
   \<and> idleDelta [100, 0, 100, 700] [110, 0, 110, 770] = 70
   \<and> \<lparr>Core = ''cpu0'', UsagePct = 200 / 9\<rparr> \<in> set [\<lparr>Core = ''cpu0'', UsagePct = 200 / 9 :: real\<rparr>]
   \<and> (0 :: real) \<le> 200 / 9 \<and> (200 / 9 :: real) \<le> 100
   \<and> (22.22 :: real) < 200 / 9 \<and> (200 / 9 :: real) < 22.23"
proof -
  let ?v1 = "[100, 0, 100, 700] :: real list" and ?v2 = "[110, 0, 110, 770] :: real list"
  let ?c1 = "[100, 0, 100, 700] :: nat list" and ?c2 = "[110, 0, 110, 770] :: nat list"
  have s1: "snapshot parseDecimal (stat_first example_env) = Ok [''cpu0'' \<mapsto> ?v1]"
    by (simp add: example_env_def snapshot_def eval_strings)
  have s2: "snapshot parseDecimal (stat_second example_env) = Ok [''cpu0'' \<mapsto> ?v2]"
    by (simp add: example_env_def snapshot_def eval_strings)
  have g: "getCPUStats parseDecimal (stat_first example_env) (stat_second example_env) [''cpu0'']
             = Ok (0, [\<lparr>Core = ''cpu0'', UsagePct = 200 / 9\<rparr>])"
    by (simp add: example_env_def eval_cpu eval_strings)
  have t: "idleDelta ?v1 ?v2 = 70" "spec_totalDelta ?v1 ?v2 = 90"
    by (simp_all add: idleDelta_def spec_totalDelta_def)
  have c: "?v1 = map real ?c1" "?v2 = map real ?c2"
    "sum_list ?c1 \<le> 2 ^ 53" "sum_list ?c2 \<le> 2 ^ 53"
    by simp_all
  have mono: "\<forall>i<length ?v1. ?v1 ! i \<le> ?v2 ! i"
    by (simp add: less_Suc_eq nth_Cons')
  have k: "[''cpu0'' \<mapsto> ?v1] ''cpu0'' = Some ?v1" "[''cpu0'' \<mapsto> ?v2] ''cpu0'' = Some ?v2"
    by simp_all
  have len: "3 < length ?v1" "length ?v1 = length ?v2"
    by simp_all
  have nz: "spec_totalDelta ?v1 ?v2 \<noteq> 0"
    using t by simp
  have u: "(1 - idleDelta ?v1 ?v2 / spec_totalDelta ?v1 ?v2) * 100 = 200 / 9"
    unfolding t by simp
  note th = C6_usage_formula [OF s1 s2 k c len nz, of "[''cpu0'']" 0
      "[\<lparr>Core = ''cpu0'', UsagePct = 200 / 9\<rparr>]", unfolded u]
  have a: "core_usage ?v1 ?v2 = Ok (Some (200 / 9))"
    by (rule th [THEN conjunct1])
  have "if ''cpu0'' = ''cpu'' then (0 :: real) = 200 / 9
      else \<lparr>Core = ''cpu0'', UsagePct = 200 / 9\<rparr> \<in> set [\<lparr>Core = ''cpu0'', UsagePct = 200 / 9 :: real\<rparr>]"
    by (rule th [THEN conjunct2, THEN conjunct1, THEN mp]) (simp add: g [simplified])
  then have b: "\<lparr>Core = ''cpu0'', UsagePct = 200 / 9\<rparr>
      \<in> set [\<lparr>Core = ''cpu0'', UsagePct = 200 / 9 :: real\<rparr>]"
    by simp
  have d: "0 < spec_totalDelta ?v1 ?v2 \<and> (0 :: real) \<le> 200 / 9 \<and> (200 / 9 :: real) \<le> 100"
    by (rule th [THEN conjunct2, THEN conjunct2, THEN mp]) (rule mono)
  show ?thesis
    using a b d t by simp
qed

text \<open>
  Claim C6 as the specification states it fails when the second row is longer: for
  \<^verbatim>\<open>cpu0 100 0 100 700\<close> and \<^verbatim>\<open>cpu0 110 0 110 770 50\<close> the specification's total delta is 140 and
  its formula gives 50, while the code sums four counters of each row and reports \<open>200/9\<close>.
\<close>

theorem C6_longer_second_row_counterexample:
  "getCPUStats parseDecimal (Opened [''cpu0 100 0 100 700''] (\<lambda>n. None))
       (Opened [''cpu0 110 0 110 770 50''] (\<lambda>n. None)) [''cpu0'']
     = Ok (0, [\<lparr>Core = ''cpu0'', UsagePct = 200 / 9\<rparr>])
   \<and> 0 < spec_totalDelta [100, 0, 100, 700] [110, 0, 110, 770, 50]
   \<and> (1 - idleDelta [100, 0, 100, 700] [110, 0, 110, 770, 50]
            / spec_totalDelta [100, 0, 100, 700] [110, 0, 110, 770, 50]) * 100 = 50
   \<and> (200 / 9 :: real) \<noteq> 50"
  by (simp add: eval_cpu eval_strings spec_totalDelta_def idleDelta_def)

section \<open>Failures of a collection\<close>

text \<open>
  Claim C7. An error of the memory sub-step, or of the CPU sub-step after a successful
  memory sub-step, is the error of \<^verbatim>\<open>GetSystemStats\<close>, wrapped; a snapshot is returned only
  when both sub-steps succeeded. When the memory sub-step succeeds and a counter token in
  the leading \<^verbatim>\<open>cpu\<close> block of the first reading does not parse (or of the second reading,
  the first snapshot having succeeded), the error is the wrapped parse error of that
  token. Whatever the memory sub-step does, such a token in either reading makes
  \<^verbatim>\<open>GetSystemStats\<close> return an error.
\<close>

theorem C7_collect_failures:
  "(getMemoryStats pf (meminfo env) = Err e
      \<longrightarrow> GetSystemStats pf env = Err (Wrapped ''failed to get memory stats'' e))
   \<and> ((\<exists>m. getMemoryStats pf (meminfo env) = Ok m)
        \<and> getCPUStats pf (stat_first env) (stat_second env) (range_order env) = Err e
      \<longrightarrow> GetSystemStats pf env = Err (Wrapped ''failed to get CPU stats'' e))
   \<and> (GetSystemStats pf env = Ok s
      \<longrightarrow> (\<exists>m. getMemoryStats pf (meminfo env) = Ok m)
        \<and> (\<exists>c. getCPUStats pf (stat_first env) (stat_second env) (range_order env) = Ok c))
   \<and> ((\<exists>m. getMemoryStats pf (meminfo env) = Ok m)
        \<and> stat_first env = Opened first_lines first_err \<and> bad_counter_token pf first_lines
      \<longrightarrow> (\<exists>tok. pf tok = None \<and> GetSystemStats pf env =
            Err (Wrapped ''failed to get CPU stats''
                  (Wrapped ''failed to parse CPU stat'' (NumError tok)))))
   \<and> ((\<exists>m. getMemoryStats pf (meminfo env) = Ok m)
        \<and> (\<exists>stat1. snapshot pf (stat_first env) = Ok stat1)
        \<and> stat_second env = Opened second_lines second_err \<and> bad_counter_token pf second_lines
      \<longrightarrow> (\<exists>tok. pf tok = None \<and> GetSystemStats pf env =
            Err (Wrapped ''failed to get CPU stats''
                  (Wrapped ''failed to parse CPU stat'' (NumError tok)))))
   \<and> ((stat_first env = Opened first_lines first_err \<and> bad_counter_token pf first_lines)
        \<or> (stat_second env = Opened second_lines second_err \<and> bad_counter_token pf second_lines)
      \<longrightarrow> (\<exists>err. GetSystemStats pf env = Err err))"
proof -
  let ?cpu = "getCPUStats pf (stat_first env) (stat_second env) (range_order env)"
  have a: "getMemoryStats pf (meminfo env) = Err e
      \<longrightarrow> GetSystemStats pf env = Err (Wrapped ''failed to get memory stats'' e)"
    by (simp add: GetSystemStats_def)
  have b: "(\<exists>m. getMemoryStats pf (meminfo env) = Ok m) \<and> ?cpu = Err e
      \<longrightarrow> GetSystemStats pf env = Err (Wrapped ''failed to get CPU stats'' e)"
    by (auto simp: GetSystemStats_def)
  have c: "GetSystemStats pf env = Ok s
      \<longrightarrow> (\<exists>m. getMemoryStats pf (meminfo env) = Ok m) \<and> (\<exists>c. ?cpu = Ok c)"
    by (auto simp: GetSystemStats_def split: result.splits)
  have first: "\<exists>tok. pf tok = None \<and>
      ?cpu = Err (Wrapped ''failed to parse CPU stat'' (NumError tok))"
    if "stat_first env = Opened first_lines first_err" "bad_counter_token pf first_lines"
    using that snapshot_bad [of pf first_lines first_err] by (auto simp: getCPUStats_def)
  have second: "\<exists>tok. pf tok = None \<and>
      ?cpu = Err (Wrapped ''failed to parse CPU stat'' (NumError tok))"
    if "snapshot pf (stat_first env) = Ok stat1" "stat_second env = Opened second_lines second_err"
      "bad_counter_token pf second_lines" for stat1
    using that snapshot_bad [of pf second_lines second_err] by (auto simp: getCPUStats_def)
  have d: "(\<exists>m. getMemoryStats pf (meminfo env) = Ok m)
        \<and> stat_first env = Opened first_lines first_err \<and> bad_counter_token pf first_lines
      \<longrightarrow> (\<exists>tok. pf tok = None \<and> GetSystemStats pf env =
            Err (Wrapped ''failed to get CPU stats''
                  (Wrapped ''failed to parse CPU stat'' (NumError tok))))"
    using first by (auto simp: GetSystemStats_def)
  have e: "(\<exists>m. getMemoryStats pf (meminfo env) = Ok m)
        \<and> (\<exists>stat1. snapshot pf (stat_first env) = Ok stat1)
        \<and> stat_second env = Opened second_lines second_err \<and> bad_counter_token pf second_lines
      \<longrightarrow> (\<exists>tok. pf tok = None \<and> GetSystemStats pf env =
            Err (Wrapped ''failed to get CPU stats''
                  (Wrapped ''failed to parse CPU stat'' (NumError tok))))"
    using second by (auto simp: GetSystemStats_def)
  have cpu_err: "\<exists>err. ?cpu = Err err"
    if "(stat_first env = Opened first_lines first_err \<and> bad_counter_token pf first_lines)
        \<or> (stat_second env = Opened second_lines second_err \<and> bad_counter_token pf second_lines)"
  proof (cases "stat_first env = Opened first_lines first_err \<and> bad_counter_token pf first_lines")
    case True
    then show ?thesis using first by auto
  next
    case False
    then have s2: "stat_second env = Opened second_lines second_err" "bad_counter_token pf second_lines"
      using that by auto
    show ?thesis
    proof (cases "snapshot pf (stat_first env)")
      case (Ok stat1)
      then show ?thesis using second [OF Ok s2] by auto
    next
      case (Err x)
      then show ?thesis by (simp add: getCPUStats_def)
    next
      case Panic
      then show ?thesis using snapshot_not_Panic by auto
    qed
  qed
  have f: "(stat_first env = Opened first_lines first_err \<and> bad_counter_token pf first_lines)
        \<or> (stat_second env = Opened second_lines second_err \<and> bad_counter_token pf second_lines)
      \<longrightarrow> (\<exists>err. GetSystemStats pf env = Err err)"
  proof
    assume h: "(stat_first env = Opened first_lines first_err \<and> bad_counter_token pf first_lines)
        \<or> (stat_second env = Opened second_lines second_err \<and> bad_counter_token pf second_lines)"
    then obtain err where "?cpu = Err err" using cpu_err by blast
    then show "\<exists>err. GetSystemStats pf env = Err err"
      using getMemoryStats_not_Panic [of pf "meminfo env"]
      by (cases "getMemoryStats pf (meminfo env)") (auto simp: GetSystemStats_def)
  qed
  from a b c d e f show ?thesis by blast
qed

theorem C7_collect_failures_witness:
  "(\<exists>tok. parseDecimal tok = None \<and>
      GetSystemStats parseDecimal
        (example_env\<lparr>stat_first := Opened [''cpu0 100 x 100 700''] (\<lambda>n. None)\<rparr>) =
      Err (Wrapped ''failed to get CPU stats''
            (Wrapped ''failed to parse CPU stat'' (NumError tok))))
   \<and> (\<exists>tok. parseDecimal tok = None \<and>
      GetSystemStats parseDecimal
        (example_env\<lparr>stat_second := Opened [''cpu0 110 0 110 7.7.0''] (\<lambda>n. None)\<rparr>) =
      Err (Wrapped ''failed to get CPU stats''
            (Wrapped ''failed to parse CPU stat'' (NumError tok))))
   \<and> GetSystemStats parseDecimal (example_env\<lparr>meminfo := OpenFails (IOError ''no such file'')\<rparr>)
       = Err (Wrapped ''failed to get memory stats'' (IOError ''no such file''))"
proof -
  let ?l1 = "[''cpu0 100 x 100 700'']" and ?l2 = "[''cpu0 110 0 110 7.7.0'']"
  let ?e1 = "example_env\<lparr>stat_first := Opened ?l1 (\<lambda>n. None)\<rparr>"
  let ?e2 = "example_env\<lparr>stat_second := Opened ?l2 (\<lambda>n. None)\<rparr>"
  let ?e3 = "example_env\<lparr>meminfo := OpenFails (IOError ''no such file'')\<rparr>"
  have m: "getMemoryStats parseDecimal (meminfo example_env) = Ok (7812.5, 3906.25)"
    by (simp add: example_env_def getMemoryStats_def eval_strings)
  have b1: "bad_counter_token parseDecimal ?l1"
    and b2: "bad_counter_token parseDecimal ?l2"
    by (simp_all add: bad_counter_token_def cpu_block_def eval_strings)
  have s: "snapshot parseDecimal (stat_first example_env) = Ok [''cpu0'' \<mapsto> [100, 0, 100, 700]]"
    by (simp add: example_env_def snapshot_def eval_strings)
  have m3: "getMemoryStats parseDecimal (meminfo ?e3) = Err (IOError ''no such file'')"
    by (simp add: getMemoryStats_def)
  note all1 = C7_collect_failures [where pf = parseDecimal and env = ?e1
      and first_lines = ?l1 and first_err = "\<lambda>n. None"]
  note all2 = C7_collect_failures [where pf = parseDecimal and env = ?e2
      and second_lines = ?l2 and second_err = "\<lambda>n. None"]
  note all3 = C7_collect_failures [where pf = parseDecimal and env = ?e3
      and e = "IOError ''no such file''"]
  have m1: "\<exists>m. getMemoryStats parseDecimal (meminfo ?e1) = Ok m"
    and m2: "\<exists>m. getMemoryStats parseDecimal (meminfo ?e2) = Ok m"
    using m by (intro exI [of _ "(7812.5, 3906.25)"], simp)+
  have s2: "\<exists>stat1. snapshot parseDecimal (stat_first ?e2) = Ok stat1"
    using s by (intro exI [of _ "[''cpu0'' \<mapsto> [100, 0, 100, 700]]"]) simp
  have w1: "\<exists>tok. parseDecimal tok = None \<and> GetSystemStats parseDecimal ?e1 =
      Err (Wrapped ''failed to get CPU stats''
            (Wrapped ''failed to parse CPU stat'' (NumError tok)))"
  proof (rule all1 [THEN conjunct2, THEN conjunct2, THEN conjunct2, THEN conjunct1, rule_format])
    show "(\<exists>m. getMemoryStats parseDecimal (meminfo ?e1) = Ok m) \<and>
        stat_first ?e1 = Opened ?l1 (\<lambda>n. None) \<and> bad_counter_token parseDecimal ?l1"
      using m1 b1 by (intro conjI) simp_all
  qed
  have w2: "\<exists>tok. parseDecimal tok = None \<and> GetSystemStats parseDecimal ?e2 =
      Err (Wrapped ''failed to get CPU stats''
            (Wrapped ''failed to parse CPU stat'' (NumError tok)))"
  proof (rule all2 [THEN conjunct2, THEN conjunct2, THEN conjunct2, THEN conjunct2,
          THEN conjunct1, rule_format])
    show "(\<exists>m. getMemoryStats parseDecimal (meminfo ?e2) = Ok m) \<and>
        (\<exists>stat1. snapshot parseDecimal (stat_first ?e2) = Ok stat1) \<and>
        stat_second ?e2 = Opened ?l2 (\<lambda>n. None) \<and> bad_counter_token parseDecimal ?l2"
      using m2 s2 b2 by (intro conjI) simp_all
  qed
  have w3: "GetSystemStats parseDecimal ?e3 =
      Err (Wrapped ''failed to get memory stats'' (IOError ''no such file''))"
    by (rule all3 [THEN conjunct1, rule_format]) (rule m3)
  from w1 w2 w3 show ?thesis by blast
qed

section \<open>Closing the monitor\<close>

text \<open>
  Claim C2, at a failing input. The monitor is built from connection parameters, and both
  \<^verbatim>\<open>ssh.Dial\<close> and \<^verbatim>\<open>sftp.NewClient\<close> succeed. The collector it gets has \<open>ownsSSHClient\<close> set,
  but its \<open>sshClient\<close> is nil and its \<open>ownsSftpClient\<close> is false, as
  \<^verbatim>\<open>NewRemoteStatsCollectorFromSFTP\<close> left them; so \<^verbatim>\<open>Close\<close> calls neither \<^verbatim>\<open>Close\<close> method of the
  libraries, where the claim has both the SSH connection and the SFTP client closed. For a
  monitor on a channel that the caller built, \<^verbatim>\<open>Close\<close> releases nothing, as the claim says.
\<close>

theorem C2_close_releases_nothing:
  "NewRemoteStatsMonitorFromSSHConfig jsonLogLine (\<lambda>addr cfg. Ok ssh) (\<lambda>c. Ok sftp)
       serverAddress config ival delta =
     Ok \<lparr>collector = \<lparr>sftpClient = Some sftp, sshClient = None, sampleDelta = delta,
                        ownsSftpClient = False, ownsSSHClient = True\<rparr>,
         interval = ival, monitorSampleDelta = delta, logLineFunc = jsonLogLine,
         ctxDone = False\<rparr>
   \<and> snd (Monitor_Close sftpClose sshClose
           \<lparr>collector = \<lparr>sftpClient = Some sftp, sshClient = None, sampleDelta = delta,
                          ownsSftpClient = False, ownsSSHClient = True\<rparr>,
            interval = ival, monitorSampleDelta = delta, logLineFunc = jsonLogLine,
            ctxDone = False\<rparr>) = (None, [])
   \<and> snd (Monitor_Close sftpClose sshClose
           (NewRemoteStatsMonitorFromSFTP jsonLogLine prebuilt ival delta)) = (None, [])"
  by (simp add: NewRemoteStatsMonitorFromSSHConfig_def NewRemoteStatsCollectorFromSSHConfig_def
      NewRemoteStatsCollectorFromSSH_def NewRemoteStatsCollectorFromSFTP_def
      NewRemoteStatsMonitorFromSFTP_def Monitor_Close_def Stop_def Collector_Close_def Let_def
      split: option.splits)

section \<open>The monitoring loop\<close>











end
